theory Spec2Isabelle
  imports Main "HOL-Library.Sublist" "HOL-Library.AList"
begin

section \<open>Python values\<close>

text \<open>
  The wrapper of \<^verbatim>\<open>datastructure.py\<close> walks nested Python data. The values it can
  meet are modelled as finite trees: \<^verbatim>\<open>None\<close>, booleans, integers, strings, lists,
  tuples and dictionaries. A dictionary is an association list in insertion order; its keys
  are integers, strings or \<^verbatim>\<open>None\<close>. A \<open>char\<close> stands for one code point below 256.
  Floats, user objects and nested wrappers are outside the model, and so are structures
  that share or contain themselves: every operation below addresses one path of a tree.
\<close>

datatype error = KeyError | IndexError | TypeError | ValueError | AttributeError

datatype key = KNone | KInt int | KStr string

datatype val =
    VNone
  | VBool bool
  | VInt int
  | VStr string
  | VList "val list"
  | VTuple "val list"
  | VDict "(key \<times> val) list"

text \<open>The argument of \<^verbatim>\<open>ds[...]\<close>: a string, an integer, or an object of another type.\<close>

datatype path = PStr string | PInt int | POther

text \<open>The fields \<^verbatim>\<open>__init__\<close> stores beside \<^verbatim>\<open>self.data\<close>.\<close>

record config =
  silent_fail :: bool
  symbol_wildcard :: string
  symbol_separator :: string
  symbol_last_list_element :: string

definition default_config :: config where
  "default_config =
     \<lparr>silent_fail = True, symbol_wildcard = ''*'', symbol_separator = ''.'',
      symbol_last_list_element = ''+''\<rparr>"

text \<open>\<^verbatim>\<open>isinstance(d, self.CONTAINER_TYPES_SUPPORTED)\<close>\<close>

fun is_container :: "val \<Rightarrow> bool" where
  "is_container (VList xs) = True"
| "is_container (VTuple xs) = True"
| "is_container (VDict m) = True"
| "is_container v = False"

text \<open>\<^verbatim>\<open>__init__\<close>: only containers are accepted as data.\<close>

definition init :: "val \<Rightarrow> error + val" where
  "init data = (if is_container data then Inr data else Inl ValueError)"

text \<open>Truthiness, as \<^verbatim>\<open>x or y\<close> tests it.\<close>

fun truthy :: "val \<Rightarrow> bool" where
  "truthy VNone = False"
| "truthy (VBool b) = b"
| "truthy (VInt n) = (n \<noteq> 0)"
| "truthy (VStr s) = (s \<noteq> [])"
| "truthy (VList xs) = (xs \<noteq> [])"
| "truthy (VTuple xs) = (xs \<noteq> [])"
| "truthy (VDict m) = (m \<noteq> [])"

text \<open>\<^verbatim>\<open>data_root or self.data\<close>, where \<^verbatim>\<open>data_root\<close> defaults to \<^verbatim>\<open>None\<close>.\<close>

fun py_or :: "val option \<Rightarrow> val \<Rightarrow> val" where
  "py_or None d = d"
| "py_or (Some r) d = (if truthy r then r else d)"

section \<open>Strings\<close>

text \<open>
  \<^verbatim>\<open>str.isdigit\<close> holds of a non-empty string of digit characters. Below code point 256
  these are the decimal digits and the superscripts 2, 3 and 1 (178, 179, 185), which
  \<^verbatim>\<open>int\<close> does not accept.
\<close>

definition is_decimal_char :: "char \<Rightarrow> bool" where
  "is_decimal_char c = (48 \<le> (of_char c :: nat) \<and> (of_char c :: nat) \<le> 57)"

definition is_digit_char :: "char \<Rightarrow> bool" where
  "is_digit_char c =
     (is_decimal_char c \<or> (of_char c :: nat) = 178 \<or> (of_char c :: nat) = 179
        \<or> (of_char c :: nat) = 185)"

definition isdigit :: "string \<Rightarrow> bool" where
  "isdigit s = (s \<noteq> [] \<and> list_all is_digit_char s)"

definition is_decimal :: "string \<Rightarrow> bool" where
  "is_decimal s = (s \<noteq> [] \<and> list_all is_decimal_char s)"

definition digit_val :: "char \<Rightarrow> int" where
  "digit_val c = int (of_char c) - 48"

text \<open>\<^verbatim>\<open>int(k)\<close>, on the strings the code gives it: those with \<^verbatim>\<open>k.isdigit()\<close>.\<close>

definition py_int :: "string \<Rightarrow> error + int" where
  "py_int s =
     (if is_decimal s then Inr (foldl (\<lambda>a c. 10 * a + digit_val c) 0 s) else Inl ValueError)"

definition digit_char :: "nat \<Rightarrow> char" where
  "digit_char n = char_of (48 + n)"

text \<open>\<^verbatim>\<open>str(n)\<close> of an integer.\<close>

fun str_nat :: "nat \<Rightarrow> string" where
  "str_nat n = (if n < 10 then [digit_char n] else str_nat (n div 10) @ [digit_char (n mod 10)])"

definition str_int :: "int \<Rightarrow> string" where
  "str_int i = (if i < 0 then CHR ''-'' # str_nat (nat (- i)) else str_nat (nat i))"

text \<open>
  \<^verbatim>\<open>s.split(sep)\<close>: the separator is looked for from the left, occurrences do not
  overlap, empty pieces are kept, and an empty separator is a \<^verbatim>\<open>ValueError\<close>.
\<close>

function split_from :: "string \<Rightarrow> string \<Rightarrow> string \<Rightarrow> string list" where
  "split_from sep cur [] = [cur]"
| "split_from sep cur (c # cs) =
     (if sep \<noteq> [] \<and> prefix sep (c # cs)
      then cur # split_from sep [] (drop (length sep) (c # cs))
      else split_from sep (cur @ [c]) cs)"
  by pat_completeness auto
termination
  by (relation "measure (\<lambda>(sep, cur, rest). length rest)") auto

definition py_split :: "string \<Rightarrow> string \<Rightarrow> error + string list" where
  "py_split s sep = (if sep = [] then Inl ValueError else Inr (split_from sep [] s))"

text \<open>\<^verbatim>\<open>sep.join(parts)\<close>\<close>

fun py_join :: "string \<Rightarrow> string list \<Rightarrow> string" where
  "py_join sep [] = []"
| "py_join sep [x] = x"
| "py_join sep (x # y # ys) = x @ sep @ py_join sep (y # ys)"

section \<open>Operations of the built-in containers\<close>

text \<open>
  The wrapper calls the container's own method through its type:
  \<^verbatim>\<open>type(d).__getitem__(d, k)\<close> and so on. A type without the method gives an
  \<^verbatim>\<open>AttributeError\<close>; a list or tuple indexed by a string gives a \<^verbatim>\<open>TypeError\<close>.
\<close>

text \<open>A list index: negative indices count from the end.\<close>

definition norm_index :: "nat \<Rightarrow> int \<Rightarrow> nat option" where
  "norm_index n i =
     (let j = (if i < 0 then int n + i else i)
      in if 0 \<le> j \<and> j < int n then Some (nat j) else None)"

fun py_getitem :: "val \<Rightarrow> key \<Rightarrow> error + val" where
  "py_getitem (VList xs) (KInt i) =
     (case norm_index (length xs) i of Some j \<Rightarrow> Inr (xs ! j) | None \<Rightarrow> Inl IndexError)"
| "py_getitem (VList xs) k = Inl TypeError"
| "py_getitem (VTuple xs) (KInt i) =
     (case norm_index (length xs) i of Some j \<Rightarrow> Inr (xs ! j) | None \<Rightarrow> Inl IndexError)"
| "py_getitem (VTuple xs) k = Inl TypeError"
| "py_getitem (VDict m) k = (case map_of m k of Some v \<Rightarrow> Inr v | None \<Rightarrow> Inl KeyError)"
| "py_getitem (VStr s) (KInt i) =
     (case norm_index (length s) i of Some j \<Rightarrow> Inr (VStr [s ! j]) | None \<Rightarrow> Inl IndexError)"
| "py_getitem (VStr s) k = Inl TypeError"
| "py_getitem v k = Inl AttributeError"

fun py_setitem :: "val \<Rightarrow> key \<Rightarrow> val \<Rightarrow> error + val" where
  "py_setitem (VList xs) (KInt i) v =
     (case norm_index (length xs) i of Some j \<Rightarrow> Inr (VList (xs[j := v]))
      | None \<Rightarrow> Inl IndexError)"
| "py_setitem (VList xs) k v = Inl TypeError"
| "py_setitem (VDict m) k v = Inr (VDict (AList.update k v m))"
| "py_setitem d k v = Inl AttributeError"

text \<open>\<^verbatim>\<open>d.append(value)\<close>: only a list has it.\<close>

fun py_append :: "val \<Rightarrow> val \<Rightarrow> error + val" where
  "py_append (VList xs) v = Inr (VList (xs @ [v]))"
| "py_append d v = Inl AttributeError"

fun py_delitem :: "val \<Rightarrow> key \<Rightarrow> error + val" where
  "py_delitem (VList xs) (KInt i) =
     (case norm_index (length xs) i of Some j \<Rightarrow> Inr (VList (take j xs @ drop (Suc j) xs))
      | None \<Rightarrow> Inl IndexError)"
| "py_delitem (VList xs) k = Inl TypeError"
| "py_delitem (VDict m) k =
     (case map_of m k of Some v \<Rightarrow> Inr (VDict (AList.delete k m)) | None \<Rightarrow> Inl KeyError)"
| "py_delitem d k = Inl AttributeError"

text \<open>
  \<^verbatim>\<open>k == x\<close> for a key \<open>k\<close> and an element \<open>x\<close>: an integer equals a boolean of the
  same numeric value.
\<close>

fun key_eq :: "key \<Rightarrow> val \<Rightarrow> bool" where
  "key_eq (KInt n) (VInt m) = (n = m)"
| "key_eq (KInt n) (VBool b) = (n = (if b then 1 else 0))"
| "key_eq (KStr s) (VStr t) = (s = t)"
| "key_eq KNone VNone = True"
| "key_eq k v = False"

text \<open>\<^verbatim>\<open>t in s\<close> for strings: \<open>t\<close> occurs in \<open>s\<close>.\<close>

fun is_substring :: "string \<Rightarrow> string \<Rightarrow> bool" where
  "is_substring t [] = (t = [])"
| "is_substring t (c # cs) = (prefix t (c # cs) \<or> is_substring t cs)"

text \<open>
  \<^verbatim>\<open>type(d).__contains__(d, k)\<close>: on a list or tuple it compares \<open>k\<close> with the
  elements, on a dictionary with the keys.
\<close>

fun py_contains :: "val \<Rightarrow> key \<Rightarrow> error + bool" where
  "py_contains (VList xs) k = Inr (list_ex (key_eq k) xs)"
| "py_contains (VTuple xs) k = Inr (list_ex (key_eq k) xs)"
| "py_contains (VDict m) k = Inr (map_of m k \<noteq> None)"
| "py_contains (VStr s) (KStr t) = Inr (is_substring t s)"
| "py_contains (VStr s) k = Inl TypeError"
| "py_contains d k = Inl AttributeError"

section \<open>Path resolution\<close>

text \<open>
  The first half of the loop body of \<^verbatim>\<open>_get_object_and_key\<close>: the segment \<open>k\<close> is
  turned into the key used on \<open>d\<close>. On a list it must be a digit string, or the append
  symbol when it is the last segment and the caller allows it. On a dictionary a digit
  string becomes the integer when the dictionary has that integer as a key. On anything
  else (a tuple, a leaf) the segment stays a string.
\<close>

definition coerce_segment :: "config \<Rightarrow> bool \<Rightarrow> val \<Rightarrow> string \<Rightarrow> bool \<Rightarrow> error + key" where
  "coerce_segment cfg allow d k is_last =
     (case d of
        VList xs \<Rightarrow>
          if isdigit k then (case py_int k of Inl e \<Rightarrow> Inl e | Inr n \<Rightarrow> Inr (KInt n))
          else if k = symbol_last_list_element cfg \<and> is_last \<and> allow then Inr (KStr k)
          else Inl KeyError
      | VDict m \<Rightarrow>
          if isdigit k then
            (case py_int k of Inl e \<Rightarrow> Inl e
             | Inr n \<Rightarrow> if map_of m (KInt n) \<noteq> None then Inr (KInt n) else Inr (KStr k))
          else Inr (KStr k)
      | _ \<Rightarrow> Inr (KStr k))"

text \<open>
  The loop of \<^verbatim>\<open>_get_object_and_key\<close> over the segments, from the object \<open>d\<close>: every
  segment but the last is read from \<open>d\<close> and must give a container. With no segment the
  key is \<^verbatim>\<open>None\<close>.
\<close>

fun resolve_loop :: "config \<Rightarrow> bool \<Rightarrow> val \<Rightarrow> string list \<Rightarrow> error + (val \<times> key)" where
  "resolve_loop cfg allow d [] = Inr (d, KNone)"
| "resolve_loop cfg allow d (k # ks) =
     (case coerce_segment cfg allow d k (ks = []) of
        Inl e \<Rightarrow> Inl e
      | Inr key \<Rightarrow>
          if ks = [] then Inr (d, key)
          else (case py_getitem d key of
                  Inl e \<Rightarrow> Inl e
                | Inr d' \<Rightarrow> if is_container d' then resolve_loop cfg allow d' ks
                             else Inl KeyError))"

text \<open>
  The segments of a call: the given \<^verbatim>\<open>keyparts\<close>, or the key (a string or an integer)
  split at the separator.
\<close>

definition keyparts_of :: "config \<Rightarrow> path \<Rightarrow> string list option \<Rightarrow> error + string list" where
  "keyparts_of cfg full_key keyparts =
     (case keyparts of
        Some kp \<Rightarrow> Inr kp
      | None \<Rightarrow>
          (case full_key of
             PStr s \<Rightarrow> py_split s (symbol_separator cfg)
           | PInt i \<Rightarrow> py_split (str_int i) (symbol_separator cfg)
           | POther \<Rightarrow> Inl ValueError))"

definition get_object_and_key ::
  "config \<Rightarrow> val \<Rightarrow> path \<Rightarrow> bool \<Rightarrow> string list option \<Rightarrow> val option \<Rightarrow> error + (val \<times> key)" where
  "get_object_and_key cfg data full_key allow keyparts data_root =
     (case keyparts_of cfg full_key keyparts of
        Inl e \<Rightarrow> Inl e
      | Inr kp \<Rightarrow> resolve_loop cfg allow (py_or data_root data) kp)"

text \<open>
  Python changes the object that \<^verbatim>\<open>_get_object_and_key\<close> returns in place, and the
  change is seen from the root. In a tree the same walk is made, the operation \<open>f\<close> is
  applied to the object and key reached, and the containers on the way are rebuilt around
  the result.
\<close>

fun replace_child :: "val \<Rightarrow> key \<Rightarrow> val \<Rightarrow> val" where
  "replace_child (VList xs) (KInt i) v =
     (case norm_index (length xs) i of Some j \<Rightarrow> VList (xs[j := v]) | None \<Rightarrow> VList xs)"
| "replace_child (VDict m) k v = VDict (AList.update k v m)"
| "replace_child d k v = d"

fun in_place ::
  "config \<Rightarrow> bool \<Rightarrow> (val \<Rightarrow> key \<Rightarrow> error + val) \<Rightarrow> val \<Rightarrow> string list \<Rightarrow> error + val" where
  "in_place cfg allow f d [] = f d KNone"
| "in_place cfg allow f d (k # ks) =
     (case coerce_segment cfg allow d k (ks = []) of
        Inl e \<Rightarrow> Inl e
      | Inr key \<Rightarrow>
          if ks = [] then f d key
          else (case py_getitem d key of
                  Inl e \<Rightarrow> Inl e
                | Inr d' \<Rightarrow>
                    if is_container d' then
                      (case in_place cfg allow f d' ks of
                         Inl e \<Rightarrow> Inl e
                       | Inr d'' \<Rightarrow> Inr (replace_child d key d''))
                    else Inl KeyError))"

text \<open>
  Two views of the same loop, used to reason about a path by its last segment. \<open>descend\<close>
  is the loop over segments none of which is the last: it gives the object the next segment
  is applied to. \<open>graft\<close> puts a new object where \<open>descend\<close> arrives and rebuilds the
  containers above it, as \<open>in_place\<close> does.
\<close>

fun descend :: "config \<Rightarrow> val \<Rightarrow> string list \<Rightarrow> error + val" where
  "descend cfg d [] = Inr d"
| "descend cfg d (k # ks) =
     (case coerce_segment cfg False d k False of
        Inl e \<Rightarrow> Inl e
      | Inr key \<Rightarrow>
          (case py_getitem d key of
             Inl e \<Rightarrow> Inl e
           | Inr d' \<Rightarrow> if is_container d' then descend cfg d' ks else Inl KeyError))"

fun graft :: "config \<Rightarrow> val \<Rightarrow> string list \<Rightarrow> val \<Rightarrow> val" where
  "graft cfg d [] new = new"
| "graft cfg d (k # ks) new =
     (case coerce_segment cfg False d k False of
        Inl e \<Rightarrow> d
      | Inr key \<Rightarrow>
          (case py_getitem d key of
             Inl e \<Rightarrow> d
           | Inr d' \<Rightarrow> replace_child d key (graft cfg d' ks new)))"

section \<open>The accessors\<close>

text \<open>The body of the \<^verbatim>\<open>try\<close> of \<^verbatim>\<open>__getitem__\<close>, and the method with its handler.\<close>

definition getitem_try :: "config \<Rightarrow> val \<Rightarrow> path \<Rightarrow> error + val" where
  "getitem_try cfg data key =
     (case get_object_and_key cfg data key False None None of
        Inl e \<Rightarrow> Inl e
      | Inr (d, k) \<Rightarrow> py_getitem d k)"

definition getitem :: "config \<Rightarrow> val \<Rightarrow> path \<Rightarrow> error + val" where
  "getitem cfg data key =
     (case getitem_try cfg data key of
        Inl e \<Rightarrow> if \<not> silent_fail cfg then Inl e else Inr VNone
      | Inr v \<Rightarrow> Inr v)"

text \<open>
  \<^verbatim>\<open>__setitem__\<close>: the result is the data after the call. On a failure in silent mode the
  data is unchanged.
\<close>

definition setitem_op :: "config \<Rightarrow> val \<Rightarrow> val \<Rightarrow> key \<Rightarrow> error + val" where
  "setitem_op cfg v d k =
     (if k = KStr (symbol_last_list_element cfg) then py_append d v else py_setitem d k v)"

definition setitem_try :: "config \<Rightarrow> val \<Rightarrow> path \<Rightarrow> val \<Rightarrow> error + val" where
  "setitem_try cfg data key v =
     (case keyparts_of cfg key None of
        Inl e \<Rightarrow> Inl e
      | Inr kp \<Rightarrow> in_place cfg True (setitem_op cfg v) data kp)"

definition setitem :: "config \<Rightarrow> val \<Rightarrow> path \<Rightarrow> val \<Rightarrow> error + val" where
  "setitem cfg data key v =
     (case setitem_try cfg data key v of
        Inl e \<Rightarrow> if \<not> silent_fail cfg then Inl e else Inr data
      | Inr data' \<Rightarrow> Inr data')"

text \<open>\<^verbatim>\<open>__contains__\<close>: any exception gives \<^verbatim>\<open>False\<close>.\<close>

definition contains :: "config \<Rightarrow> val \<Rightarrow> path \<Rightarrow> bool" where
  "contains cfg data key =
     (case get_object_and_key cfg data key False None None of
        Inl e \<Rightarrow> False
      | Inr (d, k) \<Rightarrow> (case py_contains d k of Inl e \<Rightarrow> False | Inr b \<Rightarrow> b))"

text \<open>
  \<^verbatim>\<open>__delitem__\<close> returns what the container's \<^verbatim>\<open>__delitem__\<close> returns, which is
  \<^verbatim>\<open>None\<close>, and \<^verbatim>\<open>False\<close> on any exception. The result is the returned value and the
  data after the call.
\<close>

definition delitem_try :: "config \<Rightarrow> val \<Rightarrow> path \<Rightarrow> error + val" where
  "delitem_try cfg data key =
     (case keyparts_of cfg key None of
        Inl e \<Rightarrow> Inl e
      | Inr kp \<Rightarrow> in_place cfg False py_delitem data kp)"

definition delitem :: "config \<Rightarrow> val \<Rightarrow> path \<Rightarrow> val \<times> val" where
  "delitem cfg data key =
     (case delitem_try cfg data key of
        Inl e \<Rightarrow> (VBool False, data)
      | Inr data' \<Rightarrow> (VNone, data'))"

section \<open>Pattern iteration\<close>

text \<open>
  \<^verbatim>\<open>iterpattern\<close> and \<^verbatim>\<open>filterpattern\<close> are generator functions. A run of a generator
  is the list of pairs it yields, in order, and the exception that ends it, if one does.
\<close>

type_synonym yields = "(string \<times> val) list \<times> error option"

text \<open>\<^verbatim>\<open>_getitem_extended\<close>: as \<^verbatim>\<open>__getitem__\<close>, with the segments and the root given.\<close>

definition getitem_extended ::
  "config \<Rightarrow> val \<Rightarrow> path \<Rightarrow> bool \<Rightarrow> string list option \<Rightarrow> val option \<Rightarrow> error + val" where
  "getitem_extended cfg data full_key allow keyparts data_root =
     (case (case get_object_and_key cfg data full_key allow keyparts data_root of
              Inl e \<Rightarrow> Inl e
            | Inr (d, k) \<Rightarrow> py_getitem d k) of
        Inl e \<Rightarrow> if \<not> silent_fail cfg then Inl e else Inr VNone
      | Inr v \<Rightarrow> Inr v)"

text \<open>\<^verbatim>\<open>keyparts.index(wildcard)\<close>, for a list that holds the wildcard.\<close>

fun index_of :: "string \<Rightarrow> string list \<Rightarrow> nat" where
  "index_of w [] = 0"
| "index_of w (k # ks) = (if k = w then 0 else Suc (index_of w ks))"

text \<open>\<^verbatim>\<open>str(wildcard_key)\<close>\<close>

fun str_key :: "key \<Rightarrow> string" where
  "str_key KNone = ''None''"
| "str_key (KInt i) = str_int i"
| "str_key (KStr s) = s"

text \<open>\<^verbatim>\<open>enumerate(xs)\<close>\<close>

definition enumerate_list :: "val list \<Rightarrow> (key \<times> val) list" where
  "enumerate_list xs = zip (map (\<lambda>i. KInt (int i)) [0..<length xs]) xs"

text \<open>
  The entries the wildcard runs over: the items of a dictionary, the indexed elements of a
  list or tuple, and nothing to iterate for any other object.
\<close>

fun wildcard_iterator :: "val \<Rightarrow> (key \<times> val) list option" where
  "wildcard_iterator (VDict m) = Some m"
| "wildcard_iterator (VList xs) = Some (enumerate_list xs)"
| "wildcard_iterator (VTuple xs) = Some (enumerate_list xs)"
| "wildcard_iterator v = None"

text \<open>The inner \<^verbatim>\<open>for k, v in self.iterpattern(...)\<close>: each key gets the prefix.\<close>

fun prefix_keys :: "string \<Rightarrow> yields \<Rightarrow> yields" where
  "prefix_keys p (ys, r) = (map (\<lambda>(k, v). (p @ k, v)) ys, r)"

text \<open>The outer \<^verbatim>\<open>for\<close>: the runs follow each other and the first exception ends all.\<close>

fun chain :: "yields list \<Rightarrow> yields" where
  "chain [] = ([], None)"
| "chain ((ys, Some e) # rest) = (ys, Some e)"
| "chain ((ys, None) # rest) = (case chain rest of (zs, r) \<Rightarrow> (ys @ zs, r))"

text \<open>
  The body of \<^verbatim>\<open>iterpattern\<close> once \<^verbatim>\<open>keyparts\<close> is known. The recursive call passes
  \<^verbatim>\<open>keyparts=keys_after\<close> and \<^verbatim>\<open>data_root=wildcard_value\<close>. The warning about a
  wildcard inside a segment changes no result and is left out.
\<close>

function iterpattern_parts :: "config \<Rightarrow> val \<Rightarrow> string list \<Rightarrow> val option \<Rightarrow> yields" where
  "iterpattern_parts cfg data keyparts data_root =
     (if symbol_wildcard cfg \<in> set keyparts then
        (case (if take (index_of (symbol_wildcard cfg) keyparts) keyparts \<noteq> []
               then getitem_extended cfg data POther False
                      (Some (take (index_of (symbol_wildcard cfg) keyparts) keyparts))
                      (Some (py_or data_root data))
               else Inr data) of
           Inl e \<Rightarrow> ([], Some e)
         | Inr value_containing_wildcard \<Rightarrow>
             (case wildcard_iterator value_containing_wildcard of
                None \<Rightarrow> if silent_fail cfg then ([], None) else ([], Some ValueError)
              | Some entries \<Rightarrow>
                  if drop (Suc (index_of (symbol_wildcard cfg) keyparts)) keyparts = []
                  then (map (\<lambda>(wildcard_key, wildcard_value).
                               (py_join (symbol_separator cfg)
                                  (take (index_of (symbol_wildcard cfg) keyparts) keyparts)
                                @ (if take (index_of (symbol_wildcard cfg) keyparts) keyparts \<noteq> []
                                   then symbol_separator cfg else [])
                                @ str_key wildcard_key, wildcard_value)) entries, None)
                  else chain (map (\<lambda>(wildcard_key, wildcard_value).
                               prefix_keys
                                 (py_join (symbol_separator cfg)
                                    (take (index_of (symbol_wildcard cfg) keyparts) keyparts)
                                  @ (if take (index_of (symbol_wildcard cfg) keyparts) keyparts \<noteq> []
                                     then symbol_separator cfg else [])
                                  @ str_key wildcard_key @ symbol_separator cfg)
                                 (iterpattern_parts cfg data
                                    (drop (Suc (index_of (symbol_wildcard cfg) keyparts)) keyparts)
                                    (Some wildcard_value))) entries)))
      else
        (case getitem_extended cfg data POther False (Some keyparts) (Some (py_or data_root data)) of
           Inl e \<Rightarrow> ([], Some e)
         | Inr v \<Rightarrow> ([(py_join (symbol_separator cfg) keyparts, v)], None)))"
  by pat_completeness auto
termination
  by (relation "measure (\<lambda>(cfg, data, keyparts, data_root). length keyparts)") auto

text \<open>\<^verbatim>\<open>iterpattern(pattern)\<close>: the pattern is split at the separator.\<close>

definition iterpattern :: "config \<Rightarrow> val \<Rightarrow> string \<Rightarrow> yields" where
  "iterpattern cfg data pattern =
     (case py_split pattern (symbol_separator cfg) of
        Inl e \<Rightarrow> ([], Some e)
      | Inr keyparts \<Rightarrow> iterpattern_parts cfg data keyparts None)"

text \<open>The second argument of \<^verbatim>\<open>filterpattern\<close>: a callable, or any other object.\<close>

datatype predicate = Callable "val \<Rightarrow> val" | NotCallable val

text \<open>
  The loop of \<^verbatim>\<open>filterpattern\<close> over the run of \<^verbatim>\<open>iterpattern\<close>, with the count of
  accepted values so far; it stops once \<^verbatim>\<open>max_count\<close> is reached.
\<close>

fun filter_loop ::
  "(val \<Rightarrow> val) \<Rightarrow> int option \<Rightarrow> int \<Rightarrow> (string \<times> val) list \<Rightarrow> error option \<Rightarrow> yields" where
  "filter_loop f max_count n [] r = ([], r)"
| "filter_loop f max_count n ((k, v) # rest) r =
     (if truthy (f v) then
        (if (case max_count of None \<Rightarrow> False | Some m \<Rightarrow> n + 1 \<ge> m) then ([(k, v)], None)
         else (case filter_loop f max_count (n + 1) rest r of (zs, r') \<Rightarrow> ((k, v) # zs, r')))
      else filter_loop f max_count n rest r)"

text \<open>The run of the generator that \<^verbatim>\<open>filterpattern\<close> returns.\<close>

definition filterpattern :: "config \<Rightarrow> val \<Rightarrow> string \<Rightarrow> predicate \<Rightarrow> int option \<Rightarrow> yields" where
  "filterpattern cfg data pattern filter_lambda max_count =
     (case filter_lambda of
        NotCallable x \<Rightarrow> ([], Some ValueError)
      | Callable f \<Rightarrow>
          (case iterpattern cfg data pattern of (ys, r) \<Rightarrow> filter_loop f max_count 0 ys r))"

text \<open>
  The body of \<^verbatim>\<open>filterpattern\<close> holds \<^verbatim>\<open>yield\<close>, so the call itself runs no statement
  of the body: it returns the generator, and the body starts at the first request for an
  element. The call's outcome is an exception or the run of the generator it returned.
\<close>

definition filterpattern_call ::
  "config \<Rightarrow> val \<Rightarrow> string \<Rightarrow> predicate \<Rightarrow> int option \<Rightarrow> error + yields" where
  "filterpattern_call cfg data pattern filter_lambda max_count =
     Inr (filterpattern cfg data pattern filter_lambda max_count)"

section \<open>The key rule of the specification\<close>

text \<open>
  The rule as the specification words it, to be compared with \<open>coerce_segment\<close>: against a
  mapping a segment is a string key, but a segment made of digits whose integer value is a
  key of the mapping stands for that integer key.
\<close>

definition spec_mapping_key :: "(key \<times> val) list \<Rightarrow> string \<Rightarrow> key" where
  "spec_mapping_key m k =
     (case py_int k of
        Inl e \<Rightarrow> KStr k
      | Inr n \<Rightarrow> if KInt n \<in> fst ` set m then KInt n else KStr k)"

section \<open>Strings: splitting, joining and decimal numbers\<close>

declare str_nat.simps [simp del]

lemma split_from_not_Nil: "split_from sep cur s \<noteq> []"
  by (induction sep cur s rule: split_from.induct) auto

lemma py_join_Cons: "ys \<noteq> [] \<Longrightarrow> py_join sep (x # ys) = x @ sep @ py_join sep ys"
  by (cases ys) auto

lemma join_split_from: "sep \<noteq> [] \<Longrightarrow> py_join sep (split_from sep cur s) = cur @ s"
proof (induction sep cur s rule: split_from.induct)
  case (1 sep cur)
  then show ?case by simp
next
  case (2 sep cur c cs)
  show ?case
  proof (cases "prefix sep (c # cs)")
    case True
    then have eq: "c # cs = sep @ drop (length sep) (c # cs)"
      by (metis append_eq_conv_conj prefix_def)
    have "py_join sep (split_from sep cur (c # cs))
            = cur @ sep @ py_join sep (split_from sep [] (drop (length sep) (c # cs)))"
      using True 2(3) by (simp add: py_join_Cons split_from_not_Nil)
    also have "\<dots> = cur @ sep @ drop (length sep) (c # cs)"
      using 2(1)[OF _ 2(3)] True 2(3) by simp
    finally show ?thesis using eq by metis
  next
    case False
    then show ?thesis using 2(2) 2(3) by simp
  qed
qed

lemma split_from_no_sep: "c \<notin> set x \<Longrightarrow> split_from [c] cur x = [cur @ x]"
  by (induction x arbitrary: cur) auto

lemma split_from_extend:
  "c \<notin> set x \<Longrightarrow> split_from [c] cur (s @ c # x) = split_from [c] cur s @ [x]"
proof (induction s arbitrary: cur)
  case Nil
  then show ?case by (simp add: split_from_no_sep)
next
  case (Cons a s)
  then show ?case by auto
qed

lemma digit_val_digit_char: "m < 10 \<Longrightarrow> digit_val (digit_char m) = int m"
  by (simp add: digit_val_def digit_char_def)

lemma is_decimal_char_digit_char: "m < 10 \<Longrightarrow> is_decimal_char (digit_char m)"
  by (simp add: is_decimal_char_def digit_char_def)

lemma str_nat_not_Nil: "str_nat n \<noteq> []"
  by (subst str_nat.simps) simp

lemma str_nat_decimal_chars: "list_all is_decimal_char (str_nat n)"
proof (induction n rule: str_nat.induct)
  case (1 n)
  show ?case
    by (subst str_nat.simps) (use 1 in \<open>auto simp: is_decimal_char_digit_char\<close>)
qed

lemma is_decimal_str_nat: "is_decimal (str_nat n)"
  by (simp add: is_decimal_def str_nat_not_Nil str_nat_decimal_chars)

lemma foldl_str_nat: "foldl (\<lambda>a c. 10 * a + digit_val c) 0 (str_nat n) = int n"
proof (induction n rule: str_nat.induct)
  case (1 n)
  show ?case
  proof (cases "n < 10")
    case True
    then show ?thesis by (subst str_nat.simps) (simp add: digit_val_digit_char)
  next
    case False
    have "int n = int (10 * (n div 10) + n mod 10)" by simp
    also have "\<dots> = 10 * int (n div 10) + int (n mod 10)"
      by (simp only: of_nat_add of_nat_mult of_nat_numeral)
    finally have split: "10 * int (n div 10) + int (n mod 10) = int n" by simp
    from False show ?thesis
      by (subst str_nat.simps) (simp add: 1 digit_val_digit_char split)
  qed
qed

lemma py_int_str_nat: "py_int (str_nat n) = Inr (int n)"
  by (simp add: py_int_def is_decimal_str_nat foldl_str_nat)

lemma is_decimal_isdigit: "is_decimal s \<Longrightarrow> isdigit s"
  by (auto simp: is_decimal_def isdigit_def is_digit_char_def list_all_iff)

section \<open>Properties of path resolution\<close>

subsection \<open>The failure mode plays no part in resolution\<close>

lemma coerce_segment_silent [simp]:
  "coerce_segment (cfg\<lparr>silent_fail := b\<rparr>) allow d k l = coerce_segment cfg allow d k l"
  by (cases d) (simp_all add: coerce_segment_def)

lemma resolve_loop_silent [simp]:
  "resolve_loop (cfg\<lparr>silent_fail := b\<rparr>) allow d ks = resolve_loop cfg allow d ks"
  by (induction cfg allow d ks rule: resolve_loop.induct) (auto split: sum.splits)

lemma in_place_silent [simp]:
  "in_place (cfg\<lparr>silent_fail := b\<rparr>) allow f d ks = in_place cfg allow f d ks"
  by (induction cfg allow f d ks rule: in_place.induct) (auto split: sum.splits)

lemma keyparts_of_silent [simp]:
  "keyparts_of (cfg\<lparr>silent_fail := b\<rparr>) key kp = keyparts_of cfg key kp"
  by (simp add: keyparts_of_def split: option.splits path.splits)

lemma getitem_try_silent [simp]:
  "getitem_try (cfg\<lparr>silent_fail := b\<rparr>) data key = getitem_try cfg data key"
  by (simp add: getitem_try_def get_object_and_key_def split: sum.splits)

lemma delitem_try_silent [simp]:
  "delitem_try (cfg\<lparr>silent_fail := b\<rparr>) data key = delitem_try cfg data key"
  by (simp add: delitem_try_def split: sum.splits)

subsection \<open>Coercion of one segment\<close>

lemma coerce_segment_not_last:
  "coerce_segment cfg allow d k False = coerce_segment cfg False d k False"
  by (simp add: coerce_segment_def)

lemma coerce_segment_no_append:
  "coerce_segment cfg False d k l = coerce_segment cfg False d k False"
  by (simp add: coerce_segment_def)

lemma coerce_segment_allow:
  "coerce_segment cfg False d k l = Inr key \<Longrightarrow> coerce_segment cfg True d k l = Inr key"
  by (auto simp: coerce_segment_def split: val.splits if_splits sum.splits)

lemma coerce_segment_replace_child:
  "coerce_segment cfg allow d k l = Inr key \<Longrightarrow>
   coerce_segment cfg allow (replace_child d key v) k l = Inr key"
  by (cases d)
     (auto simp: coerce_segment_def update_conv' split: if_splits sum.splits option.splits)

lemma getitem_replace_child:
  "coerce_segment cfg allow d k l = Inr key \<Longrightarrow> py_getitem d key = Inr x \<Longrightarrow>
   py_getitem (replace_child d key v) key = Inr v"
  by (cases d; cases key)
     (auto simp: coerce_segment_def update_conv' norm_index_def Let_def
           split: if_splits sum.splits option.splits)

lemma setitem_replace_child:
  "coerce_segment cfg allow d k l = Inr key \<Longrightarrow> py_getitem d key = Inr x \<Longrightarrow>
   py_setitem d key v = Inr (replace_child d key v)"
  by (cases d; cases key)
     (auto simp: coerce_segment_def split: if_splits sum.splits option.splits)

lemma is_container_replace_child [simp]:
  "is_container (replace_child d key v) = is_container d"
  by (cases d; cases key) (auto split: option.splits)

lemma resolved_parent_is_container:
  "coerce_segment cfg allow d k l = Inr key \<Longrightarrow> py_getitem d key = Inr x \<Longrightarrow> is_container d"
  by (cases d; cases key)
     (auto simp: coerce_segment_def split: if_splits sum.splits option.splits)

subsection \<open>A path seen from its last segment\<close>

lemma descend_append:
  "descend cfg d (ps @ qs) =
     (case descend cfg d ps of Inl e \<Rightarrow> Inl e | Inr d' \<Rightarrow> descend cfg d' qs)"
  by (induction ps arbitrary: d) (auto split: sum.splits)

lemma resolve_loop_snoc:
  "resolve_loop cfg allow d (ps @ [k]) =
     (case descend cfg d ps of
        Inl e \<Rightarrow> Inl e
      | Inr d' \<Rightarrow>
          (case coerce_segment cfg allow d' k True of
             Inl e \<Rightarrow> Inl e
           | Inr key \<Rightarrow> Inr (d', key)))"
proof (induction ps arbitrary: d)
  case Nil
  show ?case by (simp split: sum.splits)
next
  case (Cons p ps)
  show ?case
    using coerce_segment_not_last[of cfg allow d p]
    by (simp add: Cons split: sum.splits)
qed

lemma in_place_snoc:
  "in_place cfg allow f d (ps @ [k]) =
     (case descend cfg d ps of
        Inl e \<Rightarrow> Inl e
      | Inr d' \<Rightarrow>
          (case coerce_segment cfg allow d' k True of
             Inl e \<Rightarrow> Inl e
           | Inr key \<Rightarrow>
               (case f d' key of Inl e \<Rightarrow> Inl e | Inr d'' \<Rightarrow> Inr (graft cfg d ps d''))))"
proof (induction ps arbitrary: d)
  case Nil
  show ?case by (simp split: sum.splits)
next
  case (Cons p ps)
  show ?case
    using coerce_segment_not_last[of cfg allow d p]
    by (simp add: Cons split: sum.splits)
qed

lemma is_container_graft:
  "is_container d \<Longrightarrow> ps \<noteq> [] \<Longrightarrow> is_container (graft cfg d ps new)"
  by (cases ps) (auto split: sum.splits)

lemma descend_graft:
  "descend cfg d ps = Inr d' \<Longrightarrow> is_container new \<Longrightarrow>
   descend cfg (graft cfg d ps new) ps = Inr new"
proof (induction ps arbitrary: d)
  case Nil
  then show ?case by simp
next
  case (Cons p ps)
  from Cons.prems(1) obtain key d1 where
    c: "coerce_segment cfg False d p False = Inr key" and
    g: "py_getitem d key = Inr d1" and
    k: "is_container d1" and
    r: "descend cfg d1 ps = Inr d'"
    by (auto split: sum.splits if_splits)
  let ?g = "graft cfg d1 ps new"
  have gc: "is_container ?g"
    using k Cons.prems(2) by (cases ps) (auto split: sum.splits)
  have "descend cfg ?g ps = Inr new"
    using Cons.IH[OF r Cons.prems(2)] .
  then show ?case
    using c g gc coerce_segment_replace_child[OF c, of ?g] getitem_replace_child[OF c g, of ?g]
    by simp
qed

text \<open>
  \<open>in_place\<close> is \<^verbatim>\<open>_get_object_and_key\<close> followed by the operation on the object and
  key it returns: it fails where either fails, and otherwise the result of the operation
  stands where the object stood.
\<close>

lemma in_place_resolve_loop:
  "in_place cfg allow f d ks =
     (case resolve_loop cfg allow d ks of
        Inl e \<Rightarrow> Inl e
      | Inr (obj, key) \<Rightarrow>
          (case f obj key of
             Inl e \<Rightarrow> Inl e
           | Inr obj' \<Rightarrow> Inr (graft cfg d (butlast ks) obj')))"
proof (cases ks rule: rev_cases)
  case Nil
  then show ?thesis by (simp split: sum.splits)
next
  case (snoc ps k)
  then show ?thesis
    by (simp add: in_place_snoc resolve_loop_snoc split: sum.splits)
qed

section \<open>Lemmas for the claims\<close>

declare iterpattern_parts.simps [simp del]

lemma py_int_decimal:
  "is_decimal k \<Longrightarrow> \<exists>n. py_int k = Inr n"
  by (simp add: py_int_def)

lemma map_of_eq_None_fst: "(map_of m k \<noteq> None) = (k \<in> fst ` set m)"
  by (simp add: map_of_eq_None_iff)

lemma coerce_segment_on_dict:
  "is_decimal k \<Longrightarrow> coerce_segment cfg allow (VDict m) k l = Inr (spec_mapping_key m k)"
  by (auto simp: coerce_segment_def spec_mapping_key_def is_decimal_isdigit map_of_eq_None_iff
           dest: py_int_decimal split: sum.splits)

lemma keyparts_of_snoc:
  assumes "keyparts_of cfg key None = Inr kp"
  shows "\<exists>ps s. kp = ps @ [s]"
proof -
  from assms have "kp \<noteq> []"
    by (auto simp: keyparts_of_def py_split_def split_from_not_Nil split: path.splits if_splits)
  then show ?thesis by (metis rev_exhaust)
qed

lemma resolve_loop_snoc_Inr:
  assumes "resolve_loop cfg allow d (ps @ [s]) = Inr (obj, key)"
  shows "descend cfg d ps = Inr obj \<and> coerce_segment cfg allow obj s True = Inr key"
  using assms by (auto simp: resolve_loop_snoc split: sum.splits)

lemma py_split_Inr: "py_split s sep = Inr kp \<Longrightarrow> sep \<noteq> [] \<and> kp = split_from sep [] s"
  by (auto simp: py_split_def split: if_splits)

lemma getitem_try_snoc:
  assumes "py_split P (symbol_separator cfg) = Inr (ps @ [s])"
  shows "getitem_try cfg data (PStr P) =
           (case descend cfg data ps of
              Inl e \<Rightarrow> Inl e
            | Inr d \<Rightarrow>
                (case coerce_segment cfg False d s True of
                   Inl e \<Rightarrow> Inl e
                 | Inr k \<Rightarrow> py_getitem d k))"
  using assms
  by (simp add: getitem_try_def get_object_and_key_def keyparts_of_def resolve_loop_snoc
           split: sum.splits)

lemma descend_snoc_container:
  assumes "descend cfg d ps = Inr obj"
    and "coerce_segment cfg False obj s True = Inr k"
    and "py_getitem obj k = Inr x"
    and "is_container x"
  shows "descend cfg d (ps @ [s]) = Inr x"
  using assms coerce_segment_no_append[of cfg obj s True]
  by (simp add: descend_append)

lemma getitem_try_Inr_descend:
  assumes g: "getitem_try cfg data (PStr P) = Inr x" and c: "is_container x"
  shows "descend cfg data (split_from (symbol_separator cfg) [] P) = Inr x"
proof -
  from g obtain kp where kp: "py_split P (symbol_separator cfg) = Inr kp"
    by (auto simp: getitem_try_def get_object_and_key_def keyparts_of_def split: sum.splits)
  then have kpe: "kp = split_from (symbol_separator cfg) [] P" using py_split_Inr by blast
  have "kp \<noteq> []" using kpe split_from_not_Nil by simp
  then obtain ps s where snoc: "kp = ps @ [s]" by (metis rev_exhaust)
  from g kp snoc obtain obj k where
    "descend cfg data ps = Inr obj" "coerce_segment cfg False obj s True = Inr k"
    "py_getitem obj k = Inr x"
    by (auto simp: getitem_try_snoc split: sum.splits)
  then show ?thesis using descend_snoc_container c snoc kpe by metis
qed

lemma getitem_try_after_descend:
  assumes "py_split Q (symbol_separator cfg) = Inr (kp @ [s])"
    and "descend cfg data kp = Inr d"
  shows "getitem_try cfg data (PStr Q) =
           (case coerce_segment cfg False d s True of
              Inl e \<Rightarrow> Inl e
            | Inr k \<Rightarrow> py_getitem d k)"
  using assms by (simp add: getitem_try_snoc)

lemma descend_Inr_getitem_try:
  assumes d: "descend cfg data (split_from (symbol_separator cfg) [] P) = Inr x"
    and sep: "symbol_separator cfg \<noteq> []"
  shows "getitem_try cfg data (PStr P) = Inr x"
proof -
  let ?kp = "split_from (symbol_separator cfg) [] P"
  have "?kp \<noteq> []" by (rule split_from_not_Nil)
  then obtain ps s where snoc: "?kp = ps @ [s]" by (metis rev_exhaust)
  have sp: "py_split P (symbol_separator cfg) = Inr (ps @ [s])"
    using sep snoc by (simp add: py_split_def)
  from d snoc have "descend cfg data (ps @ [s]) = Inr x" by simp
  then obtain obj k where
    "descend cfg data ps = Inr obj" "coerce_segment cfg False obj s False = Inr k"
    "py_getitem obj k = Inr x"
    by (auto simp: descend_append split: sum.splits if_splits)
  then show ?thesis
    using coerce_segment_no_append[of cfg obj s True] by (simp add: getitem_try_snoc[OF sp])
qed

lemma foldl_digits_nonneg:
  "0 \<le> a \<Longrightarrow> list_all is_decimal_char s \<Longrightarrow> 0 \<le> foldl (\<lambda>a c. 10 * a + digit_val c) a s"
proof (induction s arbitrary: a)
  case Nil
  then show ?case by simp
next
  case (Cons c s)
  from Cons.prems have "0 \<le> 10 * a + digit_val c"
    by (simp add: is_decimal_char_def digit_val_def)
  with Cons show ?case by simp
qed

lemma py_int_nonneg: "py_int s = Inr n \<Longrightarrow> 0 \<le> n"
  using foldl_digits_nonneg[of 0 s]
  by (auto simp: py_int_def is_decimal_def split: if_splits)

lemma coerce_segment_list_key:
  assumes "coerce_segment cfg False (VList xs) s l = Inr k"
  shows "\<exists>i. k = KInt i \<and> 0 \<le> i \<and> coerce_segment cfg False (VList ys) s l = Inr k"
  using assms py_int_nonneg
  by (auto simp: coerce_segment_def split: if_splits sum.splits)

lemma contains_after_descend:
  assumes "keyparts_of cfg key None = Inr (ps @ [s])"
    and "descend cfg data ps = Inr d"
  shows "contains cfg data key =
           (case coerce_segment cfg False d s True of
              Inl e \<Rightarrow> False
            | Inr k \<Rightarrow> (case py_contains d k of Inl e \<Rightarrow> False | Inr b \<Rightarrow> b))"
  using assms
  by (simp add: contains_def get_object_and_key_def resolve_loop_snoc split: sum.splits)

lemma index_of_snoc: "w \<notin> set ks \<Longrightarrow> index_of w (ks @ [w]) = length ks"
  by (induction ks) auto

lemma zip_enumerate:
  "zip (map g [0..<length xs]) xs = map (\<lambda>i. (g i, xs ! i)) [0..<length xs]"
  by (rule nth_equalityI) auto

lemma str_key_index: "str_key (KInt (int i)) = str_nat i"
  by (simp add: str_int_def)

lemma getitem_extended_resolved:
  assumes g: "getitem_try cfg data (PStr P) = Inr x"
  shows "getitem_extended cfg data POther False
           (Some (split_from (symbol_separator cfg) [] P)) (Some data) = Inr x"
proof -
  from g obtain kp where kp: "py_split P (symbol_separator cfg) = Inr kp"
    by (auto simp: getitem_try_def get_object_and_key_def keyparts_of_def split: sum.splits)
  then have kpe: "kp = split_from (symbol_separator cfg) [] P" using py_split_Inr by blast
  from g kp kpe show ?thesis
    by (simp add: getitem_extended_def getitem_try_def get_object_and_key_def keyparts_of_def
             split: sum.splits)
qed

lemma py_split_extend:
  "c \<notin> set x \<Longrightarrow> py_split (P @ [c] @ x) [c] = Inr (split_from [c] [] P @ [x])"
  by (simp add: py_split_def split_from_extend)

lemma assignable_entry:
  assumes co: "coerce_segment cfg allow d s l = Inr k"
    and g: "d = VDict m \<or> py_getitem d k = Inr old"
  shows "py_setitem d k v = Inr (replace_child d k v)"
    and "py_getitem (replace_child d k v) k = Inr v"
    and "is_container d"
proof -
  show "py_setitem d k v = Inr (replace_child d k v)"
    using g setitem_replace_child[OF co] by auto
  show "py_getitem (replace_child d k v) k = Inr v"
    using g getitem_replace_child[OF co] by (auto simp: update_conv')
  show "is_container d"
    using g resolved_parent_is_container[OF co] by auto
qed

lemma list_ex_key_eq_int:
  "list_ex (key_eq (KInt n)) xs
     = (VInt n \<in> set xs \<or> n = 1 \<and> VBool True \<in> set xs \<or> n = 0 \<and> VBool False \<in> set xs)"
proof (induction xs)
  case Nil
  then show ?case by simp
next
  case (Cons x xs)
  then show ?case by (cases x) auto
qed

lemma list_ex_key_eq_str: "list_ex (key_eq (KStr s)) xs = (VStr s \<in> set xs)"
proof (induction xs)
  case Nil
  then show ?case by simp
next
  case (Cons x xs)
  then show ?case by (cases x) auto
qed

section \<open>The claims\<close>

text \<open>
  C1: let \<^verbatim>\<open>_get_object_and_key\<close> resolve a path to the object \<open>d\<close> and key \<open>k\<close>,
  where \<open>d\<close> is a mapping (the key need not be present yet) or \<open>d[k]\<close> is present, and
  let \<open>k\<close> not be the append symbol. Then \<^verbatim>\<open>__setitem__\<close> with any value raises
  nothing inside, so it succeeds in either failure mode, and \<^verbatim>\<open>__getitem__\<close> of the
  same path on the data it leaves raises nothing inside and returns that value. The path may
  hold the wildcard: outside pattern iteration it is an ordinary key.
\<close>

theorem set_then_get:
  assumes r: "get_object_and_key cfg data key False None None = Inr (d, k)"
    and g: "d = VDict m \<or> py_getitem d k = Inr old"
    and n: "k \<noteq> KStr (symbol_last_list_element cfg)"
  shows "\<exists>data'. setitem_try cfg data key v = Inr data' \<and> setitem cfg data key v = Inr data'
             \<and> getitem_try cfg data' key = Inr v \<and> getitem cfg data' key = Inr v"
proof -
  from r obtain kp where kp: "keyparts_of cfg key None = Inr kp"
    and rl: "resolve_loop cfg False data kp = Inr (d, k)"
    by (auto simp: get_object_and_key_def split: sum.splits)
  from keyparts_of_snoc[OF kp] obtain ps s where snoc: "kp = ps @ [s]" by blast
  from rl snoc have de: "descend cfg data ps = Inr d"
    and co: "coerce_segment cfg False d s True = Inr k"
    using resolve_loop_snoc_Inr by blast+
  let ?d' = "replace_child d k v"
  let ?data' = "graft cfg data ps ?d'"
  have op: "setitem_op cfg v d k = Inr ?d'"
    using n assignable_entry(1)[OF co g] by (simp add: setitem_op_def)
  have "in_place cfg True (setitem_op cfg v) data (ps @ [s]) = Inr ?data'"
    using de coerce_segment_allow[OF co] op by (simp add: in_place_snoc)
  then have st_try: "setitem_try cfg data key v = Inr ?data'"
    using kp snoc by (simp add: setitem_try_def)
  then have st: "setitem cfg data key v = Inr ?data'"
    by (simp add: setitem_def)
  have cont: "is_container ?d'"
    using assignable_entry(3)[OF co g] by simp
  have "resolve_loop cfg False ?data' (ps @ [s]) = Inr (?d', k)"
    using descend_graft[OF de cont] coerce_segment_replace_child[OF co]
    by (simp add: resolve_loop_snoc)
  then have gt_try: "getitem_try cfg ?data' key = Inr v"
    using kp snoc assignable_entry(2)[OF co g]
    by (simp add: getitem_try_def get_object_and_key_def)
  then have "getitem cfg ?data' key = Inr v" by (simp add: getitem_def)
  with st_try st gt_try show ?thesis by blast
qed

text \<open>The witness assigns a key the mapping does not have yet.\<close>

theorem set_then_get_witness:
  "get_object_and_key default_config
     (VDict [(KStr ''item1'', VDict [(KStr ''subitem1_1'',
        VDict [(KStr ''name'', VStr ''John''), (KStr ''age'', VInt 13)])])])
     (PStr ''item1.subitem1_1.address'') False None None
     = Inr ((VDict [(KStr ''name'', VStr ''John''), (KStr ''age'', VInt 13)]), KStr ''address'')
   \<and> ((VDict [(KStr ''name'', VStr ''John''), (KStr ''age'', VInt 13)])
        = VDict [(KStr ''name'', VStr ''John''), (KStr ''age'', VInt 13)]
      \<or> py_getitem (VDict [(KStr ''name'', VStr ''John''), (KStr ''age'', VInt 13)]) (KStr ''address'')
        = Inr VNone)
   \<and> KStr ''address'' \<noteq> KStr (symbol_last_list_element default_config)
   \<and> getitem_try default_config
       (VDict [(KStr ''item1'', VDict [(KStr ''subitem1_1'',
        VDict [(KStr ''name'', VStr ''John''), (KStr ''age'', VInt 13)])])])
       (PStr ''item1.subitem1_1.address'') = Inl KeyError
   \<and> (\<exists>data'.
        setitem default_config
          (VDict [(KStr ''item1'', VDict [(KStr ''subitem1_1'',
        VDict [(KStr ''name'', VStr ''John''), (KStr ''age'', VInt 13)])])])
          (PStr ''item1.subitem1_1.address'') (VStr ''Sofia'') = Inr data'
        \<and> getitem_try default_config data' (PStr ''item1.subitem1_1.address'')
            = Inr (VStr ''Sofia'')
        \<and> getitem default_config data' (PStr ''item1.subitem1_1.address'')
            = Inr (VStr ''Sofia''))"
proof -
  have h1: "get_object_and_key default_config
     (VDict [(KStr ''item1'', VDict [(KStr ''subitem1_1'',
        VDict [(KStr ''name'', VStr ''John''), (KStr ''age'', VInt 13)])])])
     (PStr ''item1.subitem1_1.address'') False None None
     = Inr ((VDict [(KStr ''name'', VStr ''John''), (KStr ''age'', VInt 13)]), KStr ''address'')"
    by code_simp
  have h2: "(VDict [(KStr ''name'', VStr ''John''), (KStr ''age'', VInt 13)])
        = VDict [(KStr ''name'', VStr ''John''), (KStr ''age'', VInt 13)]
      \<or> py_getitem (VDict [(KStr ''name'', VStr ''John''), (KStr ''age'', VInt 13)]) (KStr ''address'')
        = Inr VNone"
    by simp
  have h3: "KStr ''address'' \<noteq> KStr (symbol_last_list_element default_config)"
    by code_simp
  have h4: "getitem_try default_config
       (VDict [(KStr ''item1'', VDict [(KStr ''subitem1_1'',
        VDict [(KStr ''name'', VStr ''John''), (KStr ''age'', VInt 13)])])])
       (PStr ''item1.subitem1_1.address'') = Inl KeyError"
    by code_simp
  from set_then_get[OF h1 h2 h3, of "VStr ''Sofia''"] h1 h2 h3 h4 show ?thesis by blast
qed

text \<open>
  On the mapping \<^verbatim>\<open>{"+": 1}\<close> the path \<^verbatim>\<open>+\<close> reads 1. Assigning 5 to it calls
  \<^verbatim>\<open>append\<close> on the mapping and fails, silently in silent mode: the data is unchanged
  and the path still reads 1. On the list \<^verbatim>\<open>[1]\<close> the path \<^verbatim>\<open>3\<close> resolves to the
  list and the index 3, which the list does not have: the assignment is an
  \<^verbatim>\<open>IndexError\<close>, and so is the read.
\<close>

theorem set_then_get_counterexample:
  "getitem default_config (VDict [(KStr ''+'', VInt 1)]) (PStr ''+'') = Inr (VInt 1)
   \<and> setitem default_config (VDict [(KStr ''+'', VInt 1)]) (PStr ''+'') (VInt 5)
       = Inr (VDict [(KStr ''+'', VInt 1)])
   \<and> setitem_try default_config (VDict [(KStr ''+'', VInt 1)]) (PStr ''+'') (VInt 5)
       = Inl AttributeError
   \<and> getitem default_config (VDict [(KStr ''+'', VInt 1)]) (PStr ''+'') \<noteq> Inr (VInt 5)
   \<and> get_object_and_key default_config (VList [VInt 1]) (PStr ''3'') False None None
       = Inr (VList [VInt 1], KInt 3)
   \<and> setitem_try default_config (VList [VInt 1]) (PStr ''3'') (VInt 234) = Inl IndexError
   \<and> getitem_try default_config (VList [VInt 1]) (PStr ''3'') = Inl IndexError"
  by code_simp

text \<open>
  C2: when a path does not resolve, that is when the body of \<^verbatim>\<open>__getitem__\<close> raises
  \<open>e\<close>, the wrapper in silent mode returns \<^verbatim>\<open>None\<close> and raises nothing, and the
  same wrapper in strict mode raises that very error \<open>e\<close>.
\<close>

theorem get_silent_vs_strict:
  assumes "getitem_try cfg data key = Inl e"
  shows "getitem (cfg\<lparr>silent_fail := True\<rparr>) data key = Inr VNone
       \<and> getitem (cfg\<lparr>silent_fail := False\<rparr>) data key = Inl e"
  using assms by (simp add: getitem_def)

theorem get_silent_vs_strict_witness:
  "getitem_try default_config
     (VDict [(KStr ''item1'', VDict [(KStr ''subitem1_1'', VStr ''John'')])])
     (PStr ''item1.subitem1_4'') = Inl KeyError
   \<and> getitem (default_config\<lparr>silent_fail := True\<rparr>)
       (VDict [(KStr ''item1'', VDict [(KStr ''subitem1_1'', VStr ''John'')])])
       (PStr ''item1.subitem1_4'') = Inr VNone
   \<and> getitem (default_config\<lparr>silent_fail := False\<rparr>)
       (VDict [(KStr ''item1'', VDict [(KStr ''subitem1_1'', VStr ''John'')])])
       (PStr ''item1.subitem1_4'') = Inl KeyError"
proof -
  have h: "getitem_try default_config
     (VDict [(KStr ''item1'', VDict [(KStr ''subitem1_1'', VStr ''John'')])])
     (PStr ''item1.subitem1_4'') = Inl KeyError"
    by code_simp
  from get_silent_vs_strict[OF h] h show ?thesis by simp
qed

text \<open>
  C3: \<^verbatim>\<open>__delitem__\<close> never raises, whatever the failure mode: it returns
  \<^verbatim>\<open>False\<close> and leaves the data unchanged when anything fails, and it returns
  \<^verbatim>\<open>None\<close>, not \<^verbatim>\<open>True\<close>, when the removal succeeds.
\<close>

theorem delete_result:
  "delitem (cfg\<lparr>silent_fail := b\<rparr>) data key =
     (case delitem_try cfg data key of
        Inl e \<Rightarrow> (VBool False, data)
      | Inr data' \<Rightarrow> (VNone, data'))"
  by (simp add: delitem_def)

text \<open>
  Deleting index 0 of the list \<^verbatim>\<open>[1]\<close> succeeds and the call returns \<^verbatim>\<open>None\<close>.
\<close>

theorem delete_success_counterexample:
  "delitem default_config (VList [VInt 1]) (PStr ''0'') = (VNone, VList [])
   \<and> VNone \<noteq> VBool True"
  by code_simp

text \<open>
  C4: let a path resolve for reading, to the object \<open>d\<close> and key \<open>k\<close> with
  \<open>d[k]\<close> present. Then \<^verbatim>\<open>__delitem__\<close> removes the entry and returns \<^verbatim>\<open>None\<close>.
  Afterwards, on a mapping, \<^verbatim>\<open>__contains__\<close> of the path is false unless the removed
  key was the integer form of the last segment and the mapping also holds that segment as a
  string key. On a list, \<^verbatim>\<open>__contains__\<close> of the path tells whether the integer of the
  last segment is equal to one of the elements that remain.
\<close>

theorem delete_then_has:
  assumes kp: "keyparts_of cfg key None = Inr kp"
    and r: "get_object_and_key cfg data key False None None = Inr (d, k)"
    and g: "py_getitem d k = Inr old"
  shows "\<exists>data'. delitem cfg data key = (VNone, data') \<and>
           (case d of
              VDict m \<Rightarrow>
                contains cfg data' key =
                  (case k of KInt n \<Rightarrow> map_of m (KStr (last kp)) \<noteq> None | _ \<Rightarrow> False)
            | VList xs \<Rightarrow>
                (case k of
                   KInt i \<Rightarrow>
                     contains cfg data' key =
                       list_ex (key_eq k) (take (nat i) xs @ drop (Suc (nat i)) xs)
                 | _ \<Rightarrow> False)
            | _ \<Rightarrow> False)"
proof -
  from keyparts_of_snoc[OF kp] obtain ps s where snoc: "kp = ps @ [s]" by blast
  from r kp have rl: "resolve_loop cfg False data kp = Inr (d, k)"
    by (simp add: get_object_and_key_def)
  with snoc have de: "descend cfg data ps = Inr d"
    and co: "coerce_segment cfg False d s True = Inr k"
    using resolve_loop_snoc_Inr by blast+
  have kps: "keyparts_of cfg key None = Inr (ps @ [s])" using kp snoc by simp
  have run: "py_delitem d k = Inr d' \<Longrightarrow> is_container d' \<Longrightarrow>
      delitem cfg data key = (VNone, graft cfg data ps d')
      \<and> contains cfg (graft cfg data ps d') key =
          (case coerce_segment cfg False d' s True of
             Inl e \<Rightarrow> False
           | Inr k' \<Rightarrow> (case py_contains d' k' of Inl e \<Rightarrow> False | Inr b \<Rightarrow> b))" for d'
    using de co kps contains_after_descend[OF kps descend_graft[OF de]]
    by (simp add: delitem_def delitem_try_def in_place_snoc)
  show ?thesis
  proof (cases d)
    case (VList xs)
    from co VList obtain i where i: "k = KInt i" "0 \<le> i"
      and co': "\<And>ys. coerce_segment cfg False (VList ys) s True = Inr k"
      using coerce_segment_list_key by blast
    from g VList i have j: "norm_index (length xs) i = Some (nat i)"
      by (auto simp: norm_index_def Let_def split: if_splits)
    let ?ys = "take (nat i) xs @ drop (Suc (nat i)) xs"
    have "py_delitem d k = Inr (VList ?ys)" using VList i j by simp
    from run[OF this] co'[of ?ys] VList i show ?thesis by simp
  next
    case (VDict m)
    from g VDict obtain old' where mk: "map_of m k = Some old'"
      by (auto split: option.splits)
    let ?m' = "AList.delete k m"
    have del: "py_delitem d k = Inr (VDict ?m')" using VDict mk by simp
    have "(case coerce_segment cfg False (VDict ?m') s True of
             Inl e \<Rightarrow> False
           | Inr k' \<Rightarrow> (case py_contains (VDict ?m') k' of Inl e \<Rightarrow> False | Inr b \<Rightarrow> b))
          = (case k of KInt n \<Rightarrow> map_of m (KStr s) \<noteq> None | _ \<Rightarrow> False)"
      using co VDict
      by (auto simp: coerce_segment_def delete_conv' split: if_splits sum.splits key.splits)
    moreover have "last kp = s" using snoc by simp
    ultimately show ?thesis using run[OF del] VDict by (simp cong: key.case_cong)
  next
    case VNone
    with co g show ?thesis by (simp add: coerce_segment_def)
  next
    case (VBool b)
    with co g show ?thesis by (simp add: coerce_segment_def)
  next
    case (VInt n)
    with co g show ?thesis by (simp add: coerce_segment_def)
  next
    case (VStr t)
    with co g show ?thesis by (auto simp: coerce_segment_def)
  next
    case (VTuple xs)
    with co g show ?thesis by (auto simp: coerce_segment_def)
  qed
qed

theorem delete_then_has_witness:
  "keyparts_of default_config (PStr ''item1.new_item'') None = Inr [''item1'', ''new_item'']
   \<and> get_object_and_key default_config
       (VDict [(KStr ''item1'', VDict [(KStr ''new_item'',
        VDict [(KInt 1, VInt 11), (KInt 2, VInt 22)])])])
       (PStr ''item1.new_item'') False None None
     = Inr ((VDict [(KStr ''new_item'', VDict [(KInt 1, VInt 11), (KInt 2, VInt 22)])]),
            KStr ''new_item'')
   \<and> py_getitem (VDict [(KStr ''new_item'', VDict [(KInt 1, VInt 11), (KInt 2, VInt 22)])])
       (KStr ''new_item'')
     = Inr (VDict [(KInt 1, VInt 11), (KInt 2, VInt 22)])
   \<and> (\<exists>data'.
        delitem default_config
          (VDict [(KStr ''item1'', VDict [(KStr ''new_item'',
        VDict [(KInt 1, VInt 11), (KInt 2, VInt 22)])])])
          (PStr ''item1.new_item'') = (VNone, data')
        \<and> \<not> contains default_config data' (PStr ''item1.new_item''))"
proof -
  have h1: "keyparts_of default_config (PStr ''item1.new_item'') None
            = Inr [''item1'', ''new_item'']"
    by code_simp
  have h2: "get_object_and_key default_config
       (VDict [(KStr ''item1'', VDict [(KStr ''new_item'',
        VDict [(KInt 1, VInt 11), (KInt 2, VInt 22)])])])
       (PStr ''item1.new_item'') False None None
     = Inr ((VDict [(KStr ''new_item'', VDict [(KInt 1, VInt 11), (KInt 2, VInt 22)])]),
            KStr ''new_item'')"
    by code_simp
  have h3: "py_getitem (VDict [(KStr ''new_item'', VDict [(KInt 1, VInt 11), (KInt 2, VInt 22)])])
       (KStr ''new_item'')
     = Inr (VDict [(KInt 1, VInt 11), (KInt 2, VInt 22)])"
    by code_simp
  from delete_then_has[OF h1 h2 h3] have
    "\<exists>data'.
        delitem default_config
          (VDict [(KStr ''item1'', VDict [(KStr ''new_item'',
        VDict [(KInt 1, VInt 11), (KInt 2, VInt 22)])])])
          (PStr ''item1.new_item'') = (VNone, data')
        \<and> \<not> contains default_config data' (PStr ''item1.new_item'')"
    by simp
  with h1 h2 h3 show ?thesis by blast
qed

text \<open>
  On the list \<^verbatim>\<open>[5, 0]\<close> the path \<^verbatim>\<open>0\<close> reads 5. Deleting it returns \<^verbatim>\<open>None\<close>
  and leaves \<^verbatim>\<open>[0]\<close>, on which \<^verbatim>\<open>"0" in ds\<close> is true: the integer 0 is an element.
\<close>

theorem delete_then_has_counterexample:
  "getitem default_config (VList [VInt 5, VInt 0]) (PStr ''0'') = Inr (VInt 5)
   \<and> delitem default_config (VList [VInt 5, VInt 0]) (PStr ''0'') = (VNone, VList [VInt 0])
   \<and> contains default_config (VList [VInt 0]) (PStr ''0'')"
  by code_simp

text \<open>
  C5: let the path \<open>P\<close> read a list or tuple \<open>xs\<close>, let none of its segments be the
  wildcard, and let \<open>P\<close> followed by the separator and the wildcard split into the
  segments of \<open>P\<close> and the wildcard (as it does for a one-character separator that does not
  occur in the wildcard, see \<open>py_split_extend\<close>). Then \<^verbatim>\<open>iterpattern\<close> of that pattern
  ends normally after yielding exactly \<open>length xs\<close> pairs: for \<open>i\<close> from 0 upwards the
  key is \<open>P\<close>, the separator and the decimal \<open>i\<close>, and the value is element \<open>i\<close>.
\<close>

theorem wildcard_completeness:
  assumes g: "getitem_try cfg data (PStr P) = Inr s"
    and sq: "s = VList xs \<or> s = VTuple xs"
    and sp: "py_split (P @ symbol_separator cfg @ symbol_wildcard cfg) (symbol_separator cfg)
             = Inr (split_from (symbol_separator cfg) [] P @ [symbol_wildcard cfg])"
    and nw: "symbol_wildcard cfg \<notin> set (split_from (symbol_separator cfg) [] P)"
  shows "iterpattern cfg data (P @ symbol_separator cfg @ symbol_wildcard cfg)
         = (map (\<lambda>i. (P @ symbol_separator cfg @ str_nat i, xs ! i)) [0..<length xs], None)"
proof -
  let ?sep = "symbol_separator cfg"
  let ?wc = "symbol_wildcard cfg"
  let ?kp = "split_from ?sep [] P"
  have sep: "?sep \<noteq> []" using sp py_split_Inr by blast
  have ne: "?kp \<noteq> []" by (rule split_from_not_Nil)
  have ix: "index_of ?wc (?kp @ [?wc]) = length ?kp" using nw by (rule index_of_snoc)
  have jn: "py_join ?sep ?kp = P" using join_split_from[OF sep, of "[]" P] by simp
  have it: "wildcard_iterator s = Some (enumerate_list xs)" using sq by auto
  have "iterpattern_parts cfg data (?kp @ [?wc]) None
        = (map (\<lambda>(wk, wv). (P @ ?sep @ str_key wk, wv)) (enumerate_list xs), None)"
    by (subst iterpattern_parts.simps)
       (simp add: ix ne jn it getitem_extended_resolved[OF g])
  also have "map (\<lambda>(wk, wv). (P @ ?sep @ str_key wk, wv)) (enumerate_list xs)
             = map (\<lambda>i. (P @ ?sep @ str_nat i, xs ! i)) [0..<length xs]"
    by (simp add: enumerate_list_def zip_enumerate str_key_index del: str_key.simps)
  finally show ?thesis using sp by (simp add: iterpattern_def)
qed

theorem wildcard_completeness_witness:
  "getitem_try default_config (VDict [(KStr ''a'', VList [VInt 1, VInt 2])]) (PStr ''a'')
     = Inr (VList [VInt 1, VInt 2])
   \<and> py_split (''a'' @ symbol_separator default_config @ symbol_wildcard default_config)
       (symbol_separator default_config)
     = Inr (split_from (symbol_separator default_config) [] ''a''
            @ [symbol_wildcard default_config])
   \<and> symbol_wildcard default_config
       \<notin> set (split_from (symbol_separator default_config) [] ''a'')
   \<and> iterpattern default_config (VDict [(KStr ''a'', VList [VInt 1, VInt 2])]) ''a.*''
     = ([(''a.0'', VInt 1), (''a.1'', VInt 2)], None)"
proof -
  have h1: "getitem_try default_config (VDict [(KStr ''a'', VList [VInt 1, VInt 2])]) (PStr ''a'')
     = Inr (VList [VInt 1, VInt 2])"
    by code_simp
  have h2: "VList [VInt 1, VInt 2] = VList [VInt 1, VInt 2] \<or> VList [VInt 1, VInt 2] = VTuple [VInt 1, VInt 2]"
    by simp
  have h3: "py_split (''a'' @ symbol_separator default_config @ symbol_wildcard default_config)
       (symbol_separator default_config)
     = Inr (split_from (symbol_separator default_config) [] ''a''
            @ [symbol_wildcard default_config])"
    by code_simp
  have h4: "symbol_wildcard default_config
       \<notin> set (split_from (symbol_separator default_config) [] ''a'')"
    by code_simp
  have p: "''a'' @ symbol_separator default_config @ symbol_wildcard default_config = ''a.*''"
    by code_simp
  have e: "(map (\<lambda>i. (''a'' @ symbol_separator default_config @ str_nat i,
                       [VInt 1, VInt 2] ! i)) [0..<length [VInt 1, VInt 2]], None :: error option)
           = ([(''a.0'', VInt 1), (''a.1'', VInt 2)], None)"
    by code_simp
  from wildcard_completeness[OF h1 h2 h3 h4] have
    "iterpattern default_config (VDict [(KStr ''a'', VList [VInt 1, VInt 2])]) ''a.*''
     = ([(''a.0'', VInt 1), (''a.1'', VInt 2)], None)"
    by (simp only: p e)
  with h1 h3 h4 show ?thesis by blast
qed

text \<open>
  In \<^verbatim>\<open>{"a": {"*": {"b": [1, 2]}, "c": {"b": [3]}}}\<close> the path \<^verbatim>\<open>a.*.b\<close> reads the
  list \<^verbatim>\<open>[1, 2]\<close>, since \<^verbatim>\<open>__getitem__\<close> takes the wildcard for a key. The pattern
  \<^verbatim>\<open>a.*.b.*\<close> takes its first wildcard as one, runs over both entries of \<^verbatim>\<open>a\<close> and
  yields three pairs, not the two elements of the list. With the separator \<^verbatim>\<open>aa\<close> the
  path \<^verbatim>\<open>xa\<close> reads the list \<^verbatim>\<open>[1, 2]\<close> of \<^verbatim>\<open>{"xa": [1, 2]}\<close>, but the path
  followed by the separator and the wildcard, \<^verbatim>\<open>xaaa*\<close>, splits into \<^verbatim>\<open>x\<close> and
  \<^verbatim>\<open>a*\<close>: no segment is the wildcard, and the single pair yielded has the value
  \<^verbatim>\<open>None\<close>.
\<close>

theorem wildcard_completeness_counterexample:
  "getitem default_config
     (VDict [(KStr ''a'',
          VDict [(KStr ''*'', VDict [(KStr ''b'', VList [VInt 1, VInt 2])]),
                 (KStr ''c'', VDict [(KStr ''b'', VList [VInt 3])])])])
     (PStr ''a.*.b'') = Inr (VList [VInt 1, VInt 2])
   \<and> iterpattern default_config
       (VDict [(KStr ''a'',
          VDict [(KStr ''*'', VDict [(KStr ''b'', VList [VInt 1, VInt 2])]),
                 (KStr ''c'', VDict [(KStr ''b'', VList [VInt 3])])])])
       ''a.*.b.*''
     = ([(''a.*.b.0'', VInt 1), (''a.*.b.1'', VInt 2), (''a.c.b.0'', VInt 3)], None)
   \<and> getitem_try (default_config\<lparr>symbol_separator := ''aa''\<rparr>)
       (VDict [(KStr ''xa'', VList [VInt 1, VInt 2])]) (PStr ''xa'')
     = Inr (VList [VInt 1, VInt 2])
   \<and> iterpattern (default_config\<lparr>symbol_separator := ''aa''\<rparr>)
       (VDict [(KStr ''xa'', VList [VInt 1, VInt 2])]) (''xa'' @ ''aa'' @ ''*'')
     = ([(''xaaa*'', VNone)], None)"
  by code_simp

text \<open>
  C6: the recursive call is given the entry's value as \<^verbatim>\<open>data_root\<close>, but
  \<^verbatim>\<open>data_root or self.data\<close> replaces an empty value by the whole data, and with the
  wildcard first among the remaining segments \<^verbatim>\<open>self.data\<close> is iterated. On
  \<^verbatim>\<open>[[], [5]]\<close> the pattern \<^verbatim>\<open>*.0\<close> yields under key \<^verbatim>\<open>0.0\<close> the element 0 of
  the whole data, not of the empty list; on \<^verbatim>\<open>[[1, 2], [3]]\<close> the pattern \<^verbatim>\<open>*.*\<close>
  yields the elements of the whole data under every key.
\<close>

theorem iterpattern_falsy_data_root:
  "iterpattern default_config (VList [VList [], VList [VInt 5]]) ''*.0''
     = ([(''0.0'', VList []), (''1.0'', VInt 5)], None)
   \<and> iterpattern default_config (VList [VList [VInt 1, VInt 2], VList [VInt 3]]) ''*.*''
     = ([(''0.0'', VList [VInt 1, VInt 2]), (''0.1'', VList [VInt 3]),
         (''1.0'', VList [VInt 1, VInt 2]), (''1.1'', VList [VInt 3])], None)"
  by code_simp

text \<open>
  C7: let \<open>kp\<close> be the segments of a path \<open>P\<close> that reads a list \<open>xs\<close>, or no segment
  at all when the data itself is the list \<open>xs\<close>, and let the append symbol not be a digit
  string. Let \<open>Q\<close> be the path with the segments \<open>kp\<close> and then the append symbol, and
  \<open>R\<close> the path with the segments \<open>kp\<close> and then the decimal of \<open>length xs\<close>. Then
  \<^verbatim>\<open>__setitem__\<close> of \<open>Q\<close> raises nothing inside, so it succeeds in either failure mode;
  afterwards the list is \<open>xs\<close> with the value appended, one longer, and \<open>R\<close> reads the
  value. The sequence must be a Python list: a tuple has no \<^verbatim>\<open>append\<close>.
\<close>

theorem append_growth:
  assumes seq: "kp = [] \<and> data = VList xs
                \<or> py_split P (symbol_separator cfg) = Inr kp
                   \<and> getitem_try cfg data (PStr P) = Inr (VList xs)"
    and q: "py_split Q (symbol_separator cfg) = Inr (kp @ [symbol_last_list_element cfg])"
    and r: "py_split R (symbol_separator cfg) = Inr (kp @ [str_nat (length xs)])"
    and nd: "\<not> isdigit (symbol_last_list_element cfg)"
  shows "\<exists>data'.
           setitem_try cfg data (PStr Q) v = Inr data'
         \<and> setitem cfg data (PStr Q) v = Inr data'
         \<and> (kp = [] \<and> data' = VList (xs @ [v])
              \<or> py_split P (symbol_separator cfg) = Inr kp
                 \<and> getitem_try cfg data' (PStr P) = Inr (VList (xs @ [v])))
         \<and> getitem_try cfg data' (PStr R) = Inr v
         \<and> getitem cfg data' (PStr R) = Inr v"
proof -
  let ?sep = "symbol_separator cfg"
  let ?app = "symbol_last_list_element cfg"
  let ?new = "VList (xs @ [v])"
  let ?data' = "graft cfg data kp ?new"
  have sep: "?sep \<noteq> []" using q py_split_Inr by blast
  have de: "descend cfg data kp = Inr (VList xs)"
  proof -
    from seq consider "kp = []" "data = VList xs"
      | "py_split P ?sep = Inr kp" "getitem_try cfg data (PStr P) = Inr (VList xs)"
      by blast
    then show ?thesis
    proof cases
      case 1
      then show ?thesis by simp
    next
      case 2
      from getitem_try_Inr_descend[OF 2(2)] py_split_Inr[OF 2(1)] show ?thesis by simp
    qed
  qed
  have co: "coerce_segment cfg True (VList xs) ?app True = Inr (KStr ?app)"
    using nd by (simp add: coerce_segment_def)
  have "in_place cfg True (setitem_op cfg v) data (kp @ [?app]) = Inr ?data'"
    using de co by (simp add: in_place_snoc setitem_op_def)
  then have st_try: "setitem_try cfg data (PStr Q) v = Inr ?data'"
    using q by (simp add: setitem_try_def keyparts_of_def)
  then have st: "setitem cfg data (PStr Q) v = Inr ?data'"
    by (simp add: setitem_def)
  have de': "descend cfg ?data' kp = Inr ?new"
    using descend_graft[OF de] by simp
  have len: "kp = [] \<and> ?data' = ?new
             \<or> py_split P ?sep = Inr kp \<and> getitem_try cfg ?data' (PStr P) = Inr ?new"
  proof -
    from seq consider "kp = []" | "py_split P ?sep = Inr kp" by blast
    then show ?thesis
    proof cases
      case 1
      then show ?thesis by simp
    next
      case 2
      from de' py_split_Inr[OF 2] have "descend cfg ?data' (split_from ?sep [] P) = Inr ?new"
        by simp
      from descend_Inr_getitem_try[OF this sep] 2 show ?thesis by simp
    qed
  qed
  have co2: "coerce_segment cfg False ?new (str_nat (length xs)) True = Inr (KInt (int (length xs)))"
    by (simp add: coerce_segment_def is_decimal_isdigit is_decimal_str_nat py_int_str_nat)
  have g2_try: "getitem_try cfg ?data' (PStr R) = Inr v"
    using getitem_try_after_descend[OF r de'] co2 by (simp add: norm_index_def)
  then have g2: "getitem cfg ?data' (PStr R) = Inr v"
    by (simp add: getitem_def)
  from st st_try len g2_try g2 show ?thesis by blast
qed

text \<open>The witness appends to a nested list and to the data itself.\<close>

theorem append_growth_witness:
  "([''numbers''] = [] \<and> (VDict [(KStr ''numbers'', VList [VInt 1, VInt 2, VInt 3, VInt 4])]) = VList [VInt 1, VInt 2, VInt 3, VInt 4]
      \<or> py_split ''numbers'' (symbol_separator default_config) = Inr [''numbers'']
        \<and> getitem_try default_config (VDict [(KStr ''numbers'', VList [VInt 1, VInt 2, VInt 3, VInt 4])]) (PStr ''numbers'')
            = Inr (VList [VInt 1, VInt 2, VInt 3, VInt 4]))
   \<and> py_split ''numbers.+'' (symbol_separator default_config)
     = Inr ([''numbers''] @ [symbol_last_list_element default_config])
   \<and> py_split ''numbers.4'' (symbol_separator default_config)
     = Inr ([''numbers''] @ [str_nat (length [VInt 1, VInt 2, VInt 3, VInt 4])])
   \<and> \<not> isdigit (symbol_last_list_element default_config)
   \<and> (\<exists>data'.
        setitem default_config (VDict [(KStr ''numbers'', VList [VInt 1, VInt 2, VInt 3, VInt 4])]) (PStr ''numbers.+'') (VInt 10) = Inr data'
        \<and> getitem_try default_config data' (PStr ''numbers'')
            = Inr (VList [VInt 1, VInt 2, VInt 3, VInt 4, VInt 10])
        \<and> getitem default_config data' (PStr ''numbers.4'') = Inr (VInt 10))
   \<and> setitem default_config (VList [VInt 7, VInt 8]) (PStr ''+'') (VInt 234)
     = Inr (VList [VInt 7, VInt 8, VInt 234])
   \<and> (\<exists>data'.
        setitem default_config (VList [VInt 7, VInt 8]) (PStr ''+'') (VInt 234) = Inr data'
        \<and> getitem default_config data' (PStr ''2'') = Inr (VInt 234))"
proof -
  have a1: "py_split ''numbers'' (symbol_separator default_config) = Inr [''numbers'']"
    by code_simp
  have a2: "getitem_try default_config (VDict [(KStr ''numbers'', VList [VInt 1, VInt 2, VInt 3, VInt 4])]) (PStr ''numbers'')
            = Inr (VList [VInt 1, VInt 2, VInt 3, VInt 4])"
    by code_simp
  have h1: "[''numbers''] = [] \<and> (VDict [(KStr ''numbers'', VList [VInt 1, VInt 2, VInt 3, VInt 4])]) = VList [VInt 1, VInt 2, VInt 3, VInt 4]
      \<or> py_split ''numbers'' (symbol_separator default_config) = Inr [''numbers'']
        \<and> getitem_try default_config (VDict [(KStr ''numbers'', VList [VInt 1, VInt 2, VInt 3, VInt 4])]) (PStr ''numbers'')
            = Inr (VList [VInt 1, VInt 2, VInt 3, VInt 4])"
    using a1 a2 by blast
  have h2: "py_split ''numbers.+'' (symbol_separator default_config)
     = Inr ([''numbers''] @ [symbol_last_list_element default_config])"
    by code_simp
  have h3: "py_split ''numbers.4'' (symbol_separator default_config)
     = Inr ([''numbers''] @ [str_nat (length [VInt 1, VInt 2, VInt 3, VInt 4])])"
    by code_simp
  have h4: "\<not> isdigit (symbol_last_list_element default_config)"
    by code_simp
  have p3: "[VInt 1, VInt 2, VInt 3, VInt 4] @ [VInt 10] = [VInt 1, VInt 2, VInt 3, VInt 4, VInt 10]"
    by simp
  from append_growth[OF h1 h2 h3 h4, of "VInt 10"] have nested:
    "\<exists>data'.
        setitem default_config (VDict [(KStr ''numbers'', VList [VInt 1, VInt 2, VInt 3, VInt 4])]) (PStr ''numbers.+'') (VInt 10) = Inr data'
        \<and> getitem_try default_config data' (PStr ''numbers'')
            = Inr (VList [VInt 1, VInt 2, VInt 3, VInt 4, VInt 10])
        \<and> getitem default_config data' (PStr ''numbers.4'') = Inr (VInt 10)"
    by (simp only: p3) auto
  have r1: "([]::string list) = [] \<and> VList [VInt 7, VInt 8] = VList [VInt 7, VInt 8]
      \<or> py_split [] (symbol_separator default_config) = Inr []
        \<and> getitem_try default_config (VList [VInt 7, VInt 8]) (PStr [])
            = Inr (VList [VInt 7, VInt 8])"
    by simp
  have r2: "py_split ''+'' (symbol_separator default_config)
     = Inr ([] @ [symbol_last_list_element default_config])"
    by code_simp
  have r3: "py_split ''2'' (symbol_separator default_config)
     = Inr ([] @ [str_nat (length [VInt 7, VInt 8])])"
    by code_simp
  have r0: "py_split [] (symbol_separator default_config) \<noteq> Inr []"
    by code_simp
  from append_growth[OF r1 r2 r3 h4, of "VInt 234"] r0 obtain data' where
    "setitem default_config (VList [VInt 7, VInt 8]) (PStr ''+'') (VInt 234) = Inr data'"
    "data' = VList ([VInt 7, VInt 8] @ [VInt 234])"
    "getitem default_config data' (PStr ''2'') = Inr (VInt 234)"
    by auto
  then have root:
    "setitem default_config (VList [VInt 7, VInt 8]) (PStr ''+'') (VInt 234)
       = Inr (VList [VInt 7, VInt 8, VInt 234])"
    "\<exists>data'.
        setitem default_config (VList [VInt 7, VInt 8]) (PStr ''+'') (VInt 234) = Inr data'
        \<and> getitem default_config data' (PStr ''2'') = Inr (VInt 234)"
    by auto
  from h1 h2 h3 h4 nested root show ?thesis by blast
qed

text \<open>
  In \<^verbatim>\<open>{"a": (1, 2)}\<close> the path \<^verbatim>\<open>a\<close> reads a tuple of length 2; assigning 5 to
  \<^verbatim>\<open>a.+\<close> calls \<^verbatim>\<open>append\<close> on the tuple, an \<^verbatim>\<open>AttributeError\<close>, and in silent
  mode the data is unchanged. With the append symbol \<^verbatim>\<open>0\<close> the path \<^verbatim>\<open>a.0\<close> of
  \<^verbatim>\<open>{"a": [7]}\<close> is an index: assigning 9 replaces the element and the list keeps its
  length.
\<close>

theorem append_growth_counterexample:
  "getitem_try default_config (VDict [(KStr ''a'', VTuple [VInt 1, VInt 2])]) (PStr ''a'')
     = Inr (VTuple [VInt 1, VInt 2])
   \<and> setitem_try default_config (VDict [(KStr ''a'', VTuple [VInt 1, VInt 2])])
       (PStr ''a.+'') (VInt 5) = Inl AttributeError
   \<and> setitem default_config (VDict [(KStr ''a'', VTuple [VInt 1, VInt 2])])
       (PStr ''a.+'') (VInt 5) = Inr (VDict [(KStr ''a'', VTuple [VInt 1, VInt 2])])
   \<and> getitem_try (default_config\<lparr>symbol_last_list_element := ''0''\<rparr>)
       (VDict [(KStr ''a'', VList [VInt 7])]) (PStr ''a'') = Inr (VList [VInt 7])
   \<and> setitem (default_config\<lparr>symbol_last_list_element := ''0''\<rparr>)
       (VDict [(KStr ''a'', VList [VInt 7])]) (PStr ''a.0'') (VInt 9)
     = Inr (VDict [(KStr ''a'', VList [VInt 9])])"
  by code_simp

text \<open>
  C8: a segment made of decimal digits, applied to a mapping, becomes the integer key when
  the mapping has the segment's integer value as a key, and the string key otherwise. This
  is so whether or not the segment is the last one and whether or not appending is allowed,
  at every step of the loop behind \<^verbatim>\<open>__getitem__\<close> and \<^verbatim>\<open>__contains__\<close>
  (\<open>resolve_loop\<close>) and behind \<^verbatim>\<open>__setitem__\<close> and \<^verbatim>\<open>__delitem__\<close> (\<open>in_place\<close>):
  a step is the loop applied to the object reached and the segments that remain. The digits
  are the decimal digits; a superscript digit passes \<^verbatim>\<open>isdigit\<close> but \<^verbatim>\<open>int\<close>
  rejects it, and resolution fails there.
\<close>

theorem digit_segment_on_mapping:
  assumes "is_decimal k"
  shows "coerce_segment cfg allow (VDict m) k is_last = Inr (spec_mapping_key m k)
       \<and> resolve_loop cfg allow (VDict m) (k # ks) =
           (if ks = [] then Inr (VDict m, spec_mapping_key m k)
            else (case py_getitem (VDict m) (spec_mapping_key m k) of
                    Inl e \<Rightarrow> Inl e
                  | Inr d' \<Rightarrow> if is_container d' then resolve_loop cfg allow d' ks
                               else Inl KeyError))
       \<and> in_place cfg allow f (VDict m) (k # ks) =
           (if ks = [] then f (VDict m) (spec_mapping_key m k)
            else (case py_getitem (VDict m) (spec_mapping_key m k) of
                    Inl e \<Rightarrow> Inl e
                  | Inr d' \<Rightarrow>
                      if is_container d' then
                        (case in_place cfg allow f d' ks of
                           Inl e \<Rightarrow> Inl e
                         | Inr d'' \<Rightarrow> Inr (replace_child (VDict m) (spec_mapping_key m k) d''))
                      else Inl KeyError))"
  using assms by (simp add: coerce_segment_on_dict)

theorem digit_segment_on_mapping_witness:
  "is_decimal ''1''
   \<and> coerce_segment default_config False
       (VDict [(KStr ''1'', VStr ''s''), (KInt 1, VStr ''i'')]) ''1'' True = Inr (KInt 1)
   \<and> coerce_segment default_config False (VDict [(KStr ''1'', VStr ''s'')]) ''1'' True
       = Inr (KStr ''1'')
   \<and> getitem default_config (VDict [(KStr ''1'', VStr ''s''), (KInt 1, VStr ''i'')])
       (PStr ''1'') = Inr (VStr ''i'')
   \<and> getitem default_config (VDict [(KStr ''1'', VStr ''s'')]) (PStr ''1'')
       = Inr (VStr ''s'')"
proof -
  have g1: "getitem default_config (VDict [(KStr ''1'', VStr ''s''), (KInt 1, VStr ''i'')])
              (PStr ''1'') = Inr (VStr ''i'')"
    by code_simp
  have g2: "getitem default_config (VDict [(KStr ''1'', VStr ''s'')]) (PStr ''1'')
              = Inr (VStr ''s'')"
    by code_simp
  have h: "is_decimal ''1''" by code_simp
  have a: "spec_mapping_key [(KStr ''1'', VStr ''s''), (KInt 1, VStr ''i'')] ''1'' = KInt 1"
    by code_simp
  have b: "spec_mapping_key [(KStr ''1'', VStr ''s'')] ''1'' = KStr ''1''"
    by code_simp
  from digit_segment_on_mapping[OF h, of default_config False
      "[(KStr ''1'', VStr ''s''), (KInt 1, VStr ''i'')]" True]
    digit_segment_on_mapping[OF h, of default_config False "[(KStr ''1'', VStr ''s'')]" True]
  show ?thesis using h a b g1 g2 by simp
qed

text \<open>
  C9: with a predicate that is not callable, the call of \<^verbatim>\<open>filterpattern\<close> does not
  fail: it returns a generator, and the \<^verbatim>\<open>ValueError\<close> is raised when the first
  element is requested, in either failure mode and before any pair is yielded.
\<close>

theorem filterpattern_not_callable:
  "filterpattern_call cfg data pattern (NotCallable x) max_count = Inr ([], Some ValueError)"
  by (simp add: filterpattern_call_def filterpattern_def)

text \<open>
  C10: when the object a path resolves to is a list, the last segment is a decimal number
  \<open>n\<close>, the key is that integer, and \<^verbatim>\<open>__contains__\<close> of the path is true exactly
  when \<open>n\<close> is an element of the list, where \<^verbatim>\<open>True\<close> counts as 1 and \<^verbatim>\<open>False\<close>
  as 0. Whether \<open>n\<close> is an index of the list plays no part. When the object is a tuple
  the last segment stays a string, and \<^verbatim>\<open>__contains__\<close> of the path is true exactly when
  that string is an element of the tuple.
\<close>

theorem has_on_sequence:
  assumes kp: "keyparts_of cfg key None = Inr kp"
    and r: "get_object_and_key cfg data key False None None = Inr (d, k)"
  shows "(d = VList xs \<longrightarrow>
            (\<exists>n. py_int (last kp) = Inr n \<and> k = KInt n
               \<and> contains cfg data key
                   = (VInt n \<in> set xs \<or> n = 1 \<and> VBool True \<in> set xs
                        \<or> n = 0 \<and> VBool False \<in> set xs)))
       \<and> (d = VTuple xs \<longrightarrow>
            k = KStr (last kp) \<and> contains cfg data key = (VStr (last kp) \<in> set xs))"
proof -
  from keyparts_of_snoc[OF kp] obtain ps s where snoc: "kp = ps @ [s]" by blast
  from r kp have rl: "resolve_loop cfg False data kp = Inr (d, k)"
    by (simp add: get_object_and_key_def)
  with snoc have co: "coerce_segment cfg False d s True = Inr k"
    using resolve_loop_snoc_Inr by blast
  have ls: "last kp = s" using snoc by simp
  have a: "\<exists>n. py_int (last kp) = Inr n \<and> k = KInt n
               \<and> contains cfg data key
                   = (VInt n \<in> set xs \<or> n = 1 \<and> VBool True \<in> set xs
                        \<or> n = 0 \<and> VBool False \<in> set xs)" if d: "d = VList xs"
  proof -
    from co d obtain n where n: "py_int s = Inr n" and k: "k = KInt n"
      by (auto simp: coerce_segment_def split: if_splits sum.splits)
    have "contains cfg data key = list_ex (key_eq (KInt n)) xs"
      using r k d by (simp add: contains_def)
    with n k ls show ?thesis by (simp add: list_ex_key_eq_int)
  qed
  have b: "k = KStr (last kp) \<and> contains cfg data key = (VStr (last kp) \<in> set xs)"
    if d: "d = VTuple xs"
  proof -
    from co d have k: "k = KStr s" by (simp add: coerce_segment_def)
    have "contains cfg data key = list_ex (key_eq (KStr s)) xs"
      using r k d by (simp add: contains_def)
    with k ls show ?thesis by (simp add: list_ex_key_eq_str)
  qed
  from a b show ?thesis by blast
qed

theorem has_on_sequence_witness:
  "keyparts_of default_config (PStr ''5'') None = Inr [''5'']
   \<and> get_object_and_key default_config (VList [VInt 7, VInt 5]) (PStr ''5'') False None None
     = Inr (VList [VInt 7, VInt 5], KInt 5)
   \<and> contains default_config (VList [VInt 7, VInt 5]) (PStr ''5'')
   \<and> getitem_try default_config (VList [VInt 7, VInt 5]) (PStr ''5'') = Inl IndexError
   \<and> keyparts_of default_config (PStr ''1'') None = Inr [''1'']
   \<and> get_object_and_key default_config (VList [VInt 7, VInt 5]) (PStr ''1'') False None None
     = Inr (VList [VInt 7, VInt 5], KInt 1)
   \<and> \<not> contains default_config (VList [VInt 7, VInt 5]) (PStr ''1'')
   \<and> get_object_and_key default_config (VTuple [VStr ''5'']) (PStr ''5'') False None None
     = Inr (VTuple [VStr ''5''], KStr ''5'')
   \<and> contains default_config (VTuple [VStr ''5'']) (PStr ''5'')"
proof -
  have h1: "keyparts_of default_config (PStr ''5'') None = Inr [''5'']"
    by code_simp
  have h2: "get_object_and_key default_config (VList [VInt 7, VInt 5]) (PStr ''5'')
              False None None = Inr (VList [VInt 7, VInt 5], KInt 5)"
    by code_simp
  have h3: "getitem_try default_config (VList [VInt 7, VInt 5]) (PStr ''5'') = Inl IndexError"
    by code_simp
  from has_on_sequence[OF h1 h2, of "[VInt 7, VInt 5]"] have c1:
    "contains default_config (VList [VInt 7, VInt 5]) (PStr ''5'')"
    by auto
  have k1: "keyparts_of default_config (PStr ''1'') None = Inr [''1'']"
    by code_simp
  have k2: "get_object_and_key default_config (VList [VInt 7, VInt 5]) (PStr ''1'')
              False None None = Inr (VList [VInt 7, VInt 5], KInt 1)"
    by code_simp
  from has_on_sequence[OF k1 k2, of "[VInt 7, VInt 5]"] have c2:
    "\<not> contains default_config (VList [VInt 7, VInt 5]) (PStr ''1'')"
    by auto
  have t2: "get_object_and_key default_config (VTuple [VStr ''5'']) (PStr ''5'')
              False None None = Inr (VTuple [VStr ''5''], KStr ''5'')"
    by code_simp
  from has_on_sequence[OF h1 t2, of "[VStr ''5'']"] have c3:
    "contains default_config (VTuple [VStr ''5'']) (PStr ''5'')"
    by simp
  from h1 h2 h3 c1 k1 k2 c2 t2 c3 show ?thesis by blast
qed

text \<open>
  On the tuple \<^verbatim>\<open>(5,)\<close> the path \<^verbatim>\<open>5\<close> resolves to the tuple and the string
  \<^verbatim>\<open>"5"\<close>: the integer 5 is an element, the string is not, and
  \<^verbatim>\<open>__contains__\<close> is false.
\<close>

theorem has_on_sequence_counterexample:
  "get_object_and_key default_config (VTuple [VInt 5]) (PStr ''5'') False None None
     = Inr (VTuple [VInt 5], KStr ''5'')
   \<and> VInt 5 \<in> set [VInt 5]
   \<and> \<not> contains default_config (VTuple [VInt 5]) (PStr ''5'')"
  by code_simp

end
